theory Spec2Isabelle
  imports Main "HOL-Library.Sublist" "HOL-Library.Multiset"
begin

section \<open>Go runtime values used by package health\<close>

text \<open>
  A Go panic is a value of the model: indexing a slice out of range and dereferencing a
  nil pointer are the two panics the code of this package can reach.
\<close>

datatype panic = IndexOutOfRange | NilDereference

type_synonym 'a result = "panic + 'a"

definition and_then :: "'a result \<Rightarrow> ('a \<Rightarrow> 'b result) \<Rightarrow> 'b result" where
  "and_then m f = (case m of Inl p \<Rightarrow> Inl p | Inr x \<Rightarrow> f x)"

text \<open>Slice indexing \<open>xs[i]\<close>: Go panics when the index is out of range.\<close>

definition go_index :: "'a list \<Rightarrow> int \<Rightarrow> 'a result" where
  "go_index xs i = (if 0 \<le> i \<and> i < int (length xs) then Inr (xs ! nat i) else Inl IndexOutOfRange)"

text \<open>
  A Go \<open>error\<close> value: \<open>New\<close> is an error with a message (\<open>fmt.Errorf\<close>, or an error of the
  transport), \<open>Wrap\<close> is \<open>errors.Wrap(cause, message)\<close> of github.com/pkg/errors, whose
  \<open>Error()\<close> is the message, a colon and the cause's message. A nil error is \<open>None\<close>.
\<close>

datatype error = New string | Wrap error string

fun Error_msg :: "error \<Rightarrow> string" where
  "Error_msg (New s) = s"
| "Error_msg (Wrap cause msg) = msg @ '': '' @ Error_msg cause"

text \<open>\<open>time.Duration\<close> is a count of nanoseconds.\<close>

type_synonym Duration = int

section \<open>component.go: Status\<close>

type_synonym Status = int

definition OK :: Status where "OK = 0"
definition KO :: Status where "KO = 1"
definition Degraded :: Status where "Degraded = 2"
definition Deactivated :: Status where "Deactivated = 3"

definition names :: "string list" where
  "names = [''OK'', ''KO'', ''Degraded'', ''Deactivated'']"

definition Status_String :: "Status \<Rightarrow> string result" where
  "Status_String s =
     (if s < OK \<or> s > Deactivated then Inr ''Unknown''
      else go_index names s)"

section \<open>component.go: reports\<close>

text \<open>The report of one health test, as the component displays it.\<close>

record Report =
  Name :: string
  Duration :: string
  Status :: string
  Error :: string

text \<open>\<open>err\<close> returns the string error that will be in the health report.\<close>

definition err :: "error option \<Rightarrow> string" where
  "err e = (case e of None \<Rightarrow> [] | Some x \<Rightarrow> Error_msg x)"

section \<open>component.go: determineStatus\<close>

text \<open>
  The loop of \<open>determineStatus\<close>, with the local variable \<open>degraded\<close> as an argument.
  The \<open>switch\<close> compares \<open>r.Status\<close> with the case expressions in their order; a
  \<open>return\<close> inside the loop leaves the remaining reports unread.
\<close>

fun determineStatus_loop :: "bool \<Rightarrow> Report list \<Rightarrow> string result" where
  "determineStatus_loop degraded [] =
     (if degraded then Status_String Degraded else Status_String OK)"
| "determineStatus_loop degraded (r # rs) =
     and_then (Status_String Deactivated) (\<lambda>deactivated.
       if Report.Status r = deactivated then Status_String Deactivated
       else and_then (Status_String KO) (\<lambda>ko.
         if Report.Status r = ko then Status_String KO
         else and_then (Status_String Degraded) (\<lambda>deg.
           if Report.Status r = deg then determineStatus_loop True rs
           else determineStatus_loop degraded rs)))"

definition determineStatus :: "Report list \<Rightarrow> string result" where
  "determineStatus reports = determineStatus_loop False reports"

text \<open>
  The escalation rule in the words of the specification, section 4.3: Deactivated if any
  report is Deactivated, else KO if any is KO, else Degraded if any is Degraded, else OK.
\<close>

definition has_status :: "string \<Rightarrow> Report list \<Rightarrow> bool" where
  "has_status s reports = (\<exists>r \<in> set reports. Report.Status r = s)"

definition spec_escalation :: "Report list \<Rightarrow> string" where
  "spec_escalation reports =
     (if has_status ''Deactivated'' reports then ''Deactivated''
      else if has_status ''KO'' reports then ''KO''
      else if has_status ''Degraded'' reports then ''Degraded''
      else ''OK'')"

text \<open>
  What the loop computes: the first report whose status is Deactivated or KO decides, and
  only when there is none does Degraded, seen anywhere, make a difference.
\<close>

definition is_final :: "Report \<Rightarrow> bool" where
  "is_final r = (Report.Status r = ''Deactivated'' \<or> Report.Status r = ''KO'')"

definition first_final_escalation :: "Report list \<Rightarrow> string" where
  "first_final_escalation reports =
     (case find is_final reports of
        Some r \<Rightarrow> Report.Status r
      | None \<Rightarrow> if has_status ''Degraded'' reports then ''Degraded'' else ''OK'')"

section \<open>The sentry health check module\<close>

text \<open>
  What the module does to the outside world, in the order it does it: the GET of the HTTP
  client with its URL, the read of the response body, the close of the response body.
\<close>

datatype event = HTTPGet string | BodyReadAll | BodyClose

text \<open>
  The response body is an \<open>io.ReadCloser\<close>; \<open>ReadAll\<close> is what \<open>ioutil.ReadAll\<close> returns
  on it: the bytes read and the error that stopped the read, if any.
\<close>

record ReadCloser =
  ReadAll :: "string \<times> error option"

text \<open>The fields of \<open>http.Response\<close> that the module reads.\<close>

record Response =
  Status :: string
  StatusCode :: int
  Body :: ReadCloser

definition StatusOK :: int where "StatusOK = 200"

record sentryClient =
  URL :: string

text \<open>\<open>Get\<close> returns a response pointer, which may be nil, and an error, which may be nil.\<close>

record sentryHTTPClient =
  Get :: "string \<Rightarrow> Response option \<times> error option"

record SentryModule =
  sentry :: sentryClient
  httpClient :: sentryHTTPClient
  enabled :: bool

definition NewSentryModule :: "sentryClient \<Rightarrow> sentryHTTPClient \<Rightarrow> bool \<Rightarrow> SentryModule" where
  "NewSentryModule s h e = \<lparr>sentry = s, httpClient = h, enabled = e\<rparr>"

record SentryReport =
  Name :: string
  Duration :: Duration
  Status :: Status
  Error :: "error option"

text \<open>
  \<open>strings.LastIndex(s, substr)\<close> of the Go library: the index of the last instance of
  \<open>substr\<close> in \<open>s\<close>, or -1 when there is none. The search goes down from the last
  position at which \<open>substr\<close> still fits.
\<close>

fun LastIndex_from :: "nat \<Rightarrow> string \<Rightarrow> string \<Rightarrow> int" where
  "LastIndex_from 0 s substr =
     (if take (length substr) s = substr then 0 else - 1)"
| "LastIndex_from (Suc i) s substr =
     (if take (length substr) (drop (Suc i) s) = substr then int (Suc i)
      else LastIndex_from i s substr)"

definition LastIndex :: "string \<Rightarrow> string \<Rightarrow> int" where
  "LastIndex s substr =
     (if length s < length substr then - 1
      else LastIndex_from (length s - length substr) s substr)"

text \<open>
  The first block of \<open>pingSentry\<close>: the health URL built from the DSN. \<open>url\<close> stays the
  empty string when the marker is not found.
\<close>

definition healthURL :: "string \<Rightarrow> string" where
  "healthURL dsn =
     (let idx = LastIndex dsn ''/api/''
      in if idx \<noteq> - 1 then take (nat idx) dsn @ ''/_health'' else [])"

text \<open>
  \<open>pingSentry\<close> from the check of the response status on, for a response that is not nil:
  the error returned and the events on the body. The deferred close is not part of it.
\<close>

definition pingSentry_checks :: "Response \<Rightarrow> error option \<times> event list" where
  "pingSentry_checks res =
     (if StatusCode res \<noteq> StatusOK
      then (Some (New (''http response status code: '' @ Response.Status res)), [])
      else (case ReadAll (Body res) of
              (response, Some e) \<Rightarrow> (Some e, [BodyReadAll])
            | (response, None) \<Rightarrow>
                if response = ''ok'' then (None, [BodyReadAll])
                else (Some (New (''response should be 'ok' but is: '' @ response)),
                      [BodyReadAll])))"

text \<open>
  \<open>pingSentry\<close>. A non-nil error of \<open>Get\<close> returns at once, before the \<open>defer\<close> statement
  is reached. With a nil error the close of the body is deferred when the response is not
  nil, and runs when the function returns; a nil response is dereferenced by
  \<open>res.StatusCode\<close>.
\<close>

definition pingSentry :: "string \<Rightarrow> sentryHTTPClient \<Rightarrow> error option result \<times> event list" where
  "pingSentry dsn client =
     (let url = healthURL dsn
      in case Get client url of
           (res, Some e) \<Rightarrow> (Inr (Some e), [HTTPGet url])
         | (None, None) \<Rightarrow> (Inl NilDereference, [HTTPGet url])
         | (Some res, None) \<Rightarrow>
             (let (e, evs) = pingSentry_checks res
              in (Inr e, [HTTPGet url] @ evs @ [BodyClose])))"

text \<open>
  \<open>sentryPingCheck\<close>. \<open>since\<close> is the value of \<open>time.Since(now)\<close>, the wall-clock time
  measured around the call of \<open>pingSentry\<close>. A report built without a \<open>Duration\<close> and an
  \<open>Error\<close> field has the zero duration and the nil error.
\<close>

definition sentryPingCheck :: "SentryModule \<Rightarrow> Duration \<Rightarrow> SentryReport result \<times> event list" where
  "sentryPingCheck m since =
     (let healthCheckName = ''ping''
      in if \<not> enabled m
         then (Inr \<lparr>SentryReport.Name = healthCheckName, SentryReport.Duration = 0,
                    SentryReport.Status = Deactivated, SentryReport.Error = None\<rparr>, [])
         else (let dsn = URL (sentry m)
               in case pingSentry dsn (httpClient m) of
                    (Inl p, evs) \<Rightarrow> (Inl p, evs)
                  | (Inr (Some e), evs) \<Rightarrow>
                      (Inr \<lparr>SentryReport.Name = healthCheckName, SentryReport.Duration = since,
                            SentryReport.Status = KO,
                            SentryReport.Error = Some (Wrap e ''could not ping sentry'')\<rparr>, evs)
                  | (Inr None, evs) \<Rightarrow>
                      (Inr \<lparr>SentryReport.Name = healthCheckName, SentryReport.Duration = since,
                            SentryReport.Status = OK, SentryReport.Error = None\<rparr>, evs)))"

text \<open>\<open>HealthChecks\<close> of the sentry module: the one report of the ping check.\<close>

definition HealthChecks :: "SentryModule \<Rightarrow> Duration \<Rightarrow> 'ctx \<Rightarrow> SentryReport list result \<times> event list" where
  "HealthChecks m since ctx =
     (case sentryPingCheck m since of
        (Inl p, evs) \<Rightarrow> (Inl p, evs)
      | (Inr report, evs) \<Rightarrow> (Inr ([] @ [report]), evs))"

section \<open>component.go: the health component\<close>

text \<open>
  Modelled from the spec: the declarations of \<open>InfluxReport\<close>, \<open>JaegerReport\<close> and
  \<open>RedisReport\<close> are in files of the package that are not at hand. Section 3 of the
  specification gives every per-checker report the fields Name, Duration, Status and
  Error, which are the fields of \<open>SentryReport\<close> and the ones the component reads.
\<close>

type_synonym InfluxReport = SentryReport
type_synonym JaegerReport = SentryReport
type_synonym RedisReport = SentryReport

text \<open>
  The four checkers are interface values with the one method \<open>HealthChecks\<close>, which takes
  the context and returns the reports.
\<close>

record 'ctx Component =
  influx :: "'ctx \<Rightarrow> InfluxReport list"
  jaeger :: "'ctx \<Rightarrow> JaegerReport list"
  redis :: "'ctx \<Rightarrow> RedisReport list"
  sentry :: "'ctx \<Rightarrow> SentryReport list"

definition NewComponent ::
  "('ctx \<Rightarrow> InfluxReport list) \<Rightarrow> ('ctx \<Rightarrow> JaegerReport list) \<Rightarrow> ('ctx \<Rightarrow> RedisReport list)
   \<Rightarrow> ('ctx \<Rightarrow> SentryReport list) \<Rightarrow> 'ctx Component" where
  "NewComponent i j r s = \<lparr>influx = i, jaeger = j, redis = r, sentry = s\<rparr>"

text \<open>
  The loop shared, word for word, by the four \<open>HealthChecks\<close> methods of the component:
  \<open>out\<close> grows by one display report for each report of the checker.
  \<open>Duration_String\<close> is \<open>time.Duration.String\<close> of the Go library, a parameter here.
\<close>

fun reports_loop ::
  "(Duration \<Rightarrow> string) \<Rightarrow> Report list \<Rightarrow> SentryReport list \<Rightarrow> Report list result" where
  "reports_loop Duration_String out [] = Inr out"
| "reports_loop Duration_String out (r # rs) =
     and_then (Status_String (SentryReport.Status r)) (\<lambda>status.
       reports_loop Duration_String
         (out @ [\<lparr>Report.Name = SentryReport.Name r,
                  Report.Duration = Duration_String (SentryReport.Duration r),
                  Report.Status = status,
                  Report.Error = err (SentryReport.Error r)\<rparr>]) rs)"

definition InfluxHealthChecks ::
  "(Duration \<Rightarrow> string) \<Rightarrow> 'ctx Component \<Rightarrow> 'ctx \<Rightarrow> Report list result" where
  "InfluxHealthChecks Duration_String c ctx =
     (let reports = influx c ctx in reports_loop Duration_String [] reports)"

definition JaegerHealthChecks ::
  "(Duration \<Rightarrow> string) \<Rightarrow> 'ctx Component \<Rightarrow> 'ctx \<Rightarrow> Report list result" where
  "JaegerHealthChecks Duration_String c ctx =
     (let reports = jaeger c ctx in reports_loop Duration_String [] reports)"

definition RedisHealthChecks ::
  "(Duration \<Rightarrow> string) \<Rightarrow> 'ctx Component \<Rightarrow> 'ctx \<Rightarrow> Report list result" where
  "RedisHealthChecks Duration_String c ctx =
     (let reports = redis c ctx in reports_loop Duration_String [] reports)"

definition SentryHealthChecks ::
  "(Duration \<Rightarrow> string) \<Rightarrow> 'ctx Component \<Rightarrow> 'ctx \<Rightarrow> Report list result" where
  "SentryHealthChecks Duration_String c ctx =
     (let reports = Component.sentry c ctx in reports_loop Duration_String [] reports)"

text \<open>
  \<open>AllHealthChecks\<close> fills the map in the order influx, jaeger, redis, sentry; a panic of
  one step would end the call.
\<close>

definition AllHealthChecks ::
  "(Duration \<Rightarrow> string) \<Rightarrow> 'ctx Component \<Rightarrow> 'ctx \<Rightarrow> (string \<rightharpoonup> string) result" where
  "AllHealthChecks Duration_String c ctx =
     (let reports = Map.empty
      in and_then (InfluxHealthChecks Duration_String c ctx) (\<lambda>ri.
         and_then (determineStatus ri) (\<lambda>si.
         let reports = reports(''influx'' \<mapsto> si)
         in and_then (JaegerHealthChecks Duration_String c ctx) (\<lambda>rj.
            and_then (determineStatus rj) (\<lambda>sj.
            let reports = reports(''jaeger'' \<mapsto> sj)
            in and_then (RedisHealthChecks Duration_String c ctx) (\<lambda>rr.
               and_then (determineStatus rr) (\<lambda>sr.
               let reports = reports(''redis'' \<mapsto> sr)
               in and_then (SentryHealthChecks Duration_String c ctx) (\<lambda>rs.
                  and_then (determineStatus rs) (\<lambda>ss.
                  let reports = reports(''sentry'' \<mapsto> ss)
                  in Inr reports)))))))))"

text \<open>
  A display report is the projection of a report of a checker: the name kept, the
  duration rendered, the status rendered by \<open>Status.String\<close>, the error's message or the
  empty string for a nil error.
\<close>

definition is_display_of :: "(Duration \<Rightarrow> string) \<Rightarrow> SentryReport \<Rightarrow> Report \<Rightarrow> bool" where
  "is_display_of Duration_String r d =
     (Report.Name d = SentryReport.Name r
      \<and> Report.Duration d = Duration_String (SentryReport.Duration r)
      \<and> Status_String (SentryReport.Status r) = Inr (Report.Status d)
      \<and> Report.Error d = (case SentryReport.Error r of None \<Rightarrow> [] | Some e \<Rightarrow> Error_msg e))"

text \<open>The overall status of one kind: its reports displayed, then escalated.\<close>

definition kind_status :: "(Duration \<Rightarrow> string) \<Rightarrow> SentryReport list \<Rightarrow> string result" where
  "kind_status Duration_String reports =
     and_then (reports_loop Duration_String [] reports) determineStatus"

section \<open>Notions used to state the properties\<close>

text \<open>An occurrence of \<open>substr\<close> in \<open>s\<close> at index \<open>i\<close>.\<close>

definition occurs_at :: "string \<Rightarrow> string \<Rightarrow> nat \<Rightarrow> bool" where
  "occurs_at substr s i =
     (i + length substr \<le> length s \<and> take (length substr) (drop i s) = substr)"





section \<open>Example values\<close>

definition report_with :: "string \<Rightarrow> Report" where
  "report_with s =
     \<lparr>Report.Name = ''ping'', Report.Duration = ''1ms'', Report.Status = s, Report.Error = []\<rparr>"

definition example_sentry :: sentryClient where
  "example_sentry = \<lparr>URL = ''https://key@sentry.example.org/api/42/store/''\<rparr>"

definition response_with :: "string \<Rightarrow> int \<Rightarrow> string \<times> error option \<Rightarrow> Response" where
  "response_with status code body =
     \<lparr>Response.Status = status, StatusCode = code, Body = \<lparr>ReadAll = body\<rparr>\<rparr>"


text \<open>A client whose response has status 503.\<close>

definition unavailable_client :: sentryHTTPClient where
  "unavailable_client =
     \<lparr>Get = (\<lambda>url. (Some (response_with ''503 Service Unavailable'' 503 ([], None)), None))\<rparr>"



text \<open>Reports of a checker, a rendering of their durations, and two components.\<close>

definition ok_report :: SentryReport where
  "ok_report = \<lparr>SentryReport.Name = ''ping'', SentryReport.Duration = 1500000,
                 SentryReport.Status = OK, SentryReport.Error = None\<rparr>"

definition ko_report :: SentryReport where
  "ko_report = \<lparr>SentryReport.Name = ''ping'', SentryReport.Duration = 2000000,
                 SentryReport.Status = KO,
                 SentryReport.Error =
                   Some (Wrap (New ''connection refused'') ''could not ping sentry'')\<rparr>"

definition example_Duration_String :: "Duration \<Rightarrow> string" where
  "example_Duration_String d =
     (if d = 1500000 then ''1.5ms'' else if d = 2000000 then ''2ms'' else ''0s'')"

definition all_ok :: "unit Component" where
  "all_ok = NewComponent (\<lambda>ctx. [ok_report]) (\<lambda>ctx. [ok_report]) (\<lambda>ctx. [ok_report])
              (\<lambda>ctx. [ok_report])"

definition sentry_ko :: "unit Component" where
  "sentry_ko = NewComponent (\<lambda>ctx. [ok_report]) (\<lambda>ctx. [ok_report]) (\<lambda>ctx. [ok_report])
                 (\<lambda>ctx. [ko_report])"

section \<open>Status.String\<close>

lemma Status_String_OK: "Status_String OK = Inr ''OK''"
  by (simp add: Status_String_def OK_def Deactivated_def go_index_def names_def)

lemma Status_String_KO: "Status_String KO = Inr ''KO''"
  by (simp add: Status_String_def OK_def KO_def Deactivated_def go_index_def names_def)

lemma Status_String_Degraded: "Status_String Degraded = Inr ''Degraded''"
  by (simp add: Status_String_def OK_def Degraded_def Deactivated_def go_index_def names_def)

lemma Status_String_Deactivated: "Status_String Deactivated = Inr ''Deactivated''"
  by (simp add: Status_String_def OK_def Deactivated_def go_index_def names_def)

lemmas Status_String_consts =
  Status_String_OK Status_String_KO Status_String_Degraded Status_String_Deactivated

lemma Status_String_in_range:
  assumes "OK \<le> s" and "s \<le> Deactivated"
  shows "Status_String s = Inr (names ! nat s)"
  using assms by (simp add: Status_String_def OK_def Deactivated_def go_index_def names_def)

lemma Status_String_returns: "\<exists>n. Status_String s = Inr n \<and> n \<noteq> []"
proof (cases "s < OK \<or> s > Deactivated")
  case True
  then show ?thesis by (simp add: Status_String_def)
next
  case False
  then have "s = 0 \<or> s = 1 \<or> s = 2 \<or> s = 3"
    by (auto simp: OK_def Deactivated_def)
  then show ?thesis
    by (auto simp: Status_String_def OK_def Deactivated_def go_index_def names_def)
qed

text \<open>
  Claim C8. \<open>Status.String\<close> is total: each of the four defined values renders as its
  name, every value outside the range renders as "Unknown", and no value makes the
  index into the name table panic or yields the empty string.
\<close>

theorem Status_String_total:
  "Status_String OK = Inr ''OK'' \<and> Status_String KO = Inr ''KO''
   \<and> Status_String Degraded = Inr ''Degraded''
   \<and> Status_String Deactivated = Inr ''Deactivated''
   \<and> (s < OK \<or> Deactivated < s \<longrightarrow> Status_String s = Inr ''Unknown'')
   \<and> (\<exists>n. Status_String s = Inr n \<and> n \<noteq> [])
   \<and> Status_String s \<noteq> Inl IndexOutOfRange"
proof -
  have "Status_String s \<noteq> Inl IndexOutOfRange"
    using Status_String_returns [of s] by auto
  moreover have "s < OK \<or> Deactivated < s \<longrightarrow> Status_String s = Inr ''Unknown''"
    by (simp add: Status_String_def)
  ultimately show ?thesis
    using Status_String_returns [of s] by (simp add: Status_String_consts)
qed

theorem Status_String_total_witness:
  "(7 < OK \<or> Deactivated < 7) \<and> Status_String 7 = Inr ''Unknown''
   \<and> (- 1 < OK \<or> Deactivated < - 1) \<and> Status_String (- 1) = Inr ''Unknown''
   \<and> Status_String 2 = Inr ''Degraded''"
proof -
  have a: "7 < OK \<or> Deactivated < 7" by (simp add: OK_def Deactivated_def)
  have b: "- 1 < OK \<or> Deactivated < - 1" by (simp add: OK_def Deactivated_def)
  have c: "Degraded = 2" by (simp add: Degraded_def)
  show ?thesis
    using a b Status_String_total [of 7] Status_String_total [of "- 1"] c by simp
qed

section \<open>determineStatus\<close>

lemma and_then_Inr: "and_then (Inr x) f = f x"
  by (simp add: and_then_def)

lemma and_then_assoc: "and_then (and_then m f) g = and_then m (\<lambda>x. and_then (f x) g)"
  by (simp add: and_then_def split: sum.splits)

lemma determineStatus_loop_Cons:
  "determineStatus_loop degraded (r # rs) =
     (if Report.Status r = ''Deactivated'' then Inr ''Deactivated''
      else if Report.Status r = ''KO'' then Inr ''KO''
      else if Report.Status r = ''Degraded'' then determineStatus_loop True rs
      else determineStatus_loop degraded rs)"
  by (simp add: Status_String_consts and_then_Inr)

lemma determineStatus_loop_Nil:
  "determineStatus_loop degraded [] = Inr (if degraded then ''Degraded'' else ''OK'')"
  by (simp add: Status_String_consts)

declare determineStatus_loop.simps [simp del]

lemma has_status_Nil: "\<not> has_status s []"
  by (simp add: has_status_def)

lemma has_status_Cons: "has_status s (r # rs) \<longleftrightarrow> Report.Status r = s \<or> has_status s rs"
  by (simp add: has_status_def)

lemma determineStatus_loop_eq:
  "determineStatus_loop degraded rs =
     Inr (case find is_final rs of
            Some r \<Rightarrow> Report.Status r
          | None \<Rightarrow> if degraded \<or> has_status ''Degraded'' rs then ''Degraded'' else ''OK'')"
proof (induction rs arbitrary: degraded)
  case Nil
  show ?case by (simp add: determineStatus_loop_Nil has_status_Nil)
next
  case (Cons r rs)
  have fin: "is_final r \<longleftrightarrow> Report.Status r = ''Deactivated'' \<or> Report.Status r = ''KO''"
    by (simp add: is_final_def)
  show ?case
    unfolding determineStatus_loop_Cons Cons.IH
    by (simp add: fin has_status_Cons)
qed

lemma determineStatus_eq: "determineStatus rs = Inr (first_final_escalation rs)"
  by (simp add: determineStatus_def determineStatus_loop_eq first_final_escalation_def)

lemma determineStatus_returns: "\<exists>s. determineStatus rs = Inr s"
  by (simp add: determineStatus_eq)

lemma find_is_final_None:
  "find is_final rs = None \<longleftrightarrow> \<not> has_status ''Deactivated'' rs \<and> \<not> has_status ''KO'' rs"
  by (auto simp: find_None_iff is_final_def has_status_def)

lemma find_is_final_Some:
  assumes "find is_final rs = Some r"
  shows "(Report.Status r = ''Deactivated'' \<and> has_status ''Deactivated'' rs)
         \<or> (Report.Status r = ''KO'' \<and> has_status ''KO'' rs)"
proof -
  from assms have "is_final r" and "r \<in> set rs"
    by (auto simp: find_Some_iff)
  then show ?thesis by (auto simp: is_final_def has_status_def)
qed

lemma first_final_unmixed:
  assumes "\<not> (has_status ''Deactivated'' rs \<and> has_status ''KO'' rs)"
  shows "first_final_escalation rs = spec_escalation rs"
proof (cases "find is_final rs")
  case None
  then show ?thesis
    using find_is_final_None [of rs]
    by (simp add: first_final_escalation_def spec_escalation_def)
next
  case (Some r)
  from find_is_final_Some [OF Some] assms show ?thesis
    by (auto simp: first_final_escalation_def spec_escalation_def Some)
qed

lemma has_status_mset:
  assumes "mset rs = mset rs'"
  shows "has_status s rs = has_status s rs'"
proof -
  from assms have "set rs = set rs'" by (rule mset_eq_setD)
  then show ?thesis by (simp add: has_status_def)
qed

lemma spec_escalation_mset:
  "mset rs = mset rs' \<Longrightarrow> spec_escalation rs = spec_escalation rs'"
  by (simp add: spec_escalation_def has_status_mset [of rs rs'])

text \<open>
  Claim C1, as the code has it. For every sequence of reports \<open>determineStatus\<close> returns
  the status string of the first report whose status string is "Deactivated" or "KO",
  when there is one; otherwise "Degraded" if any report has the status string "Degraded";
  otherwise "OK". This is the escalation of the specification, with precedence
  Deactivated over KO over Degraded over OK, on every sequence that does not hold both a
  Deactivated and a KO report.
\<close>

theorem determineStatus_first_final:
  "determineStatus reports = Inr (first_final_escalation reports)
   \<and> (\<not> (has_status ''Deactivated'' reports \<and> has_status ''KO'' reports) \<longrightarrow>
        determineStatus reports = Inr (spec_escalation reports))"
  using first_final_unmixed [of reports] by (simp add: determineStatus_eq)

theorem determineStatus_first_final_witness:
  "determineStatus [report_with ''Degraded'', report_with ''Deactivated'', report_with ''KO'']
     = Inr ''Deactivated''
   \<and> \<not> (has_status ''Deactivated'' [report_with ''OK'', report_with ''Degraded'', report_with ''KO'']
         \<and> has_status ''KO'' [report_with ''OK'', report_with ''Degraded'', report_with ''KO''])
   \<and> determineStatus [report_with ''OK'', report_with ''Degraded'', report_with ''KO'']
       = Inr ''KO''"
  using determineStatus_first_final
      [of "[report_with ''Degraded'', report_with ''Deactivated'', report_with ''KO'']"]
    determineStatus_first_final
      [of "[report_with ''OK'', report_with ''Degraded'', report_with ''KO'']"]
  by (simp add: first_final_escalation_def is_final_def report_with_def has_status_def
      spec_escalation_def)

text \<open>
  The escalation of the specification fails on a KO report followed by a Deactivated one:
  the loop returns at the KO report, and the specification asks for Deactivated.
\<close>

theorem determineStatus_precedence_counterexample:
  "determineStatus [report_with ''KO'', report_with ''Deactivated''] = Inr ''KO''
   \<and> spec_escalation [report_with ''KO'', report_with ''Deactivated''] = ''Deactivated''
   \<and> determineStatus [report_with ''KO'', report_with ''Deactivated'']
       \<noteq> Inr (spec_escalation [report_with ''KO'', report_with ''Deactivated''])"
  by (simp add: determineStatus_def determineStatus_loop_Cons report_with_def
      spec_escalation_def has_status_def)

text \<open>
  Claim C2, as the code has it. For every list of reports that does not hold both a
  report with the status string "Deactivated" and one with the status string "KO", and
  every permutation of that list, \<open>determineStatus\<close> yields the same overall status on
  both.
\<close>

theorem determineStatus_permutation:
  assumes "mset reports = mset reports'"
    and "\<not> (has_status ''Deactivated'' reports \<and> has_status ''KO'' reports)"
  shows "determineStatus reports = determineStatus reports'"
proof -
  from assms have "\<not> (has_status ''Deactivated'' reports' \<and> has_status ''KO'' reports')"
    by (simp add: has_status_mset [of reports reports'])
  then have "determineStatus reports' = Inr (spec_escalation reports')"
    by (simp add: determineStatus_eq first_final_unmixed)
  moreover have "determineStatus reports = Inr (spec_escalation reports)"
    using assms(2) by (simp add: determineStatus_eq first_final_unmixed)
  ultimately show ?thesis
    using spec_escalation_mset [OF assms(1)] by simp
qed

theorem determineStatus_permutation_witness:
  "mset [report_with ''Degraded'', report_with ''KO'', report_with ''OK'']
     = mset [report_with ''OK'', report_with ''Degraded'', report_with ''KO'']
   \<and> \<not> (has_status ''Deactivated'' [report_with ''Degraded'', report_with ''KO'', report_with ''OK'']
         \<and> has_status ''KO'' [report_with ''Degraded'', report_with ''KO'', report_with ''OK''])
   \<and> determineStatus [report_with ''Degraded'', report_with ''KO'', report_with ''OK'']
       = determineStatus [report_with ''OK'', report_with ''Degraded'', report_with ''KO'']
   \<and> determineStatus [report_with ''OK'', report_with ''Degraded'', report_with ''KO'']
       = Inr ''KO''"
proof -
  let ?a = "[report_with ''Degraded'', report_with ''KO'', report_with ''OK'']"
  let ?b = "[report_with ''OK'', report_with ''Degraded'', report_with ''KO'']"
  have p: "mset ?a = mset ?b" by (simp add: add.commute)
  have u: "\<not> (has_status ''Deactivated'' ?a \<and> has_status ''KO'' ?a)"
    by (simp add: has_status_def report_with_def)
  have v: "determineStatus ?b = Inr ''KO''"
    by (simp add: determineStatus_def determineStatus_loop_Cons report_with_def)
  from determineStatus_permutation [OF p u] p u v show ?thesis by simp
qed

text \<open>A KO and a Deactivated report give KO in one order and Deactivated in the other.\<close>

theorem determineStatus_permutation_counterexample:
  "mset [report_with ''KO'', report_with ''Deactivated'']
     = mset [report_with ''Deactivated'', report_with ''KO'']
   \<and> determineStatus [report_with ''KO'', report_with ''Deactivated''] = Inr ''KO''
   \<and> determineStatus [report_with ''Deactivated'', report_with ''KO''] = Inr ''Deactivated''
   \<and> determineStatus [report_with ''KO'', report_with ''Deactivated'']
       \<noteq> determineStatus [report_with ''Deactivated'', report_with ''KO'']"
  by (simp add: determineStatus_def determineStatus_loop_Cons report_with_def add.commute)

text \<open>
  Claim C10. A list with no report whose status string is "Deactivated", "KO" or
  "Degraded" gives "OK": the empty list does, and so does a list of reports with status
  strings that the switch does not know, such as "Unknown".
\<close>

theorem determineStatus_default_OK:
  assumes "\<forall>r \<in> set reports. Report.Status r \<noteq> ''Deactivated'' \<and> Report.Status r \<noteq> ''KO''
             \<and> Report.Status r \<noteq> ''Degraded''"
  shows "determineStatus reports = Inr ''OK''"
proof -
  from assms have "find is_final reports = None"
    by (auto simp: find_None_iff is_final_def)
  moreover from assms have "\<not> has_status ''Degraded'' reports"
    by (auto simp: has_status_def)
  ultimately show ?thesis
    by (simp add: determineStatus_def determineStatus_loop_eq)
qed

theorem determineStatus_default_OK_witness:
  "set (map Report.Status [report_with ''Unknown'', report_with ''OK'', report_with ''degraded''])
     \<inter> {''Deactivated'', ''KO'', ''Degraded''} = {}
   \<and> determineStatus [report_with ''Unknown'', report_with ''OK'', report_with ''degraded'']
       = Inr ''OK''
   \<and> determineStatus [] = Inr ''OK''"
proof -
  let ?rs = "[report_with ''Unknown'', report_with ''OK'', report_with ''degraded'']"
  have h: "\<forall>r \<in> set ?rs. Report.Status r \<noteq> ''Deactivated'' \<and> Report.Status r \<noteq> ''KO''
             \<and> Report.Status r \<noteq> ''Degraded''"
    by (simp add: report_with_def)
  have e: "\<forall>r \<in> set ([] :: Report list). Report.Status r \<noteq> ''Deactivated''
             \<and> Report.Status r \<noteq> ''KO'' \<and> Report.Status r \<noteq> ''Degraded''"
    by simp
  have d: "set (map Report.Status ?rs) \<inter> {''Deactivated'', ''KO'', ''Degraded''} = {}"
    by (simp add: report_with_def)
  from determineStatus_default_OK [OF h] determineStatus_default_OK [OF e] d
  show ?thesis by simp
qed

section \<open>The health URL\<close>

lemma decomp_occurs: "occurs_at substr (p @ substr @ q) (length p)"
  by (simp add: occurs_at_def)

lemma occurs_decomp:
  assumes "occurs_at substr s i"
  shows "s = take i s @ substr @ drop (i + length substr) s"
proof -
  have "s = take i s @ drop i s" by simp
  also have "drop i s = take (length substr) (drop i s) @ drop (length substr) (drop i s)"
    by (rule append_take_drop_id [symmetric])
  also have "take (length substr) (drop i s) = substr"
    using assms by (simp add: occurs_at_def)
  also have "drop (length substr) (drop i s) = drop (i + length substr) s"
    by (simp add: add.commute)
  finally show ?thesis .
qed

lemma occurs_at_bound: "occurs_at substr s j \<Longrightarrow> j \<le> length s - length substr"
  unfolding occurs_at_def by linarith

lemma LastIndex_from_none:
  assumes "k + length substr \<le> length s" and "LastIndex_from k s substr = - 1"
  shows "\<forall>j \<le> k. \<not> occurs_at substr s j"
  using assms
proof (induction k)
  case 0
  then show ?case by (simp add: occurs_at_def split: if_splits)
next
  case (Suc k)
  from Suc.prems have nomatch: "take (length substr) (drop (Suc k) s) \<noteq> substr"
    and rest: "LastIndex_from k s substr = - 1"
    by (auto split: if_splits)
  from Suc.IH rest Suc.prems(1) have "\<forall>j \<le> k. \<not> occurs_at substr s j" by simp
  moreover have "\<not> occurs_at substr s (Suc k)"
    using nomatch by (simp add: occurs_at_def)
  ultimately show ?case by (auto simp: le_Suc_eq)
qed

lemma LastIndex_from_some:
  assumes "k + length substr \<le> length s" and "LastIndex_from k s substr \<noteq> - 1"
  shows "\<exists>i \<le> k. LastIndex_from k s substr = int i \<and> occurs_at substr s i
           \<and> (\<forall>j. i < j \<and> j \<le> k \<longrightarrow> \<not> occurs_at substr s j)"
  using assms
proof (induction k)
  case 0
  then show ?case by (auto simp: occurs_at_def split: if_splits)
next
  case (Suc k)
  show ?case
  proof (cases "take (length substr) (drop (Suc k) s) = substr")
    case True
    with Suc.prems(1) have "occurs_at substr s (Suc k)"
      by (simp add: occurs_at_def)
    with True show ?thesis by auto
  next
    case False
    with Suc.prems have "LastIndex_from k s substr \<noteq> - 1" by simp
    with Suc.IH Suc.prems(1) obtain i where i: "i \<le> k" "LastIndex_from k s substr = int i"
      "occurs_at substr s i" "\<forall>j. i < j \<and> j \<le> k \<longrightarrow> \<not> occurs_at substr s j"
      by auto
    have "\<not> occurs_at substr s (Suc k)"
      using False by (simp add: occurs_at_def)
    with i have "\<forall>j. i < j \<and> j \<le> Suc k \<longrightarrow> \<not> occurs_at substr s j"
      by (auto simp: le_Suc_eq)
    with i False show ?thesis by auto
  qed
qed

lemma LastIndex_absent:
  assumes "LastIndex s substr = - 1"
  shows "\<not> occurs_at substr s j"
proof (cases "length s < length substr")
  case True
  then show ?thesis by (simp add: occurs_at_def)
next
  case False
  with assms have "LastIndex_from (length s - length substr) s substr = - 1"
    by (simp add: LastIndex_def)
  with False have "\<forall>j \<le> length s - length substr. \<not> occurs_at substr s j"
    by (intro LastIndex_from_none) simp_all
  then show ?thesis using occurs_at_bound [of substr s j] by blast
qed

lemma LastIndex_present:
  assumes "LastIndex s substr \<noteq> - 1"
  shows "\<exists>i. LastIndex s substr = int i \<and> occurs_at substr s i
           \<and> (\<forall>j. occurs_at substr s j \<longrightarrow> j \<le> i)"
proof -
  from assms have fits: "\<not> length s < length substr"
    and ne: "LastIndex_from (length s - length substr) s substr \<noteq> - 1"
    by (auto simp: LastIndex_def split: if_splits)
  from fits have "(length s - length substr) + length substr \<le> length s" by simp
  from LastIndex_from_some [OF this ne]
  obtain i where i: "LastIndex_from (length s - length substr) s substr = int i"
    "occurs_at substr s i"
    "\<forall>j. i < j \<and> j \<le> length s - length substr \<longrightarrow> \<not> occurs_at substr s j"
    by auto
  have "\<forall>j. occurs_at substr s j \<longrightarrow> j \<le> i"
  proof (intro allI impI)
    fix j assume j: "occurs_at substr s j"
    show "j \<le> i"
    proof (rule ccontr)
      assume "\<not> j \<le> i"
      with occurs_at_bound [OF j] i(3) j show False by auto
    qed
  qed
  with i fits show ?thesis by (auto simp: LastIndex_def)
qed

text \<open>
  Claim C7. When the marker "/api/" does not occur in the DSN the health URL is the
  empty string. When it occurs, the DSN splits at the last occurrence of the marker into
  a prefix, the marker and a rest, and the health URL is that prefix followed by
  "/_health"; last means that no other split at the marker has a longer prefix.
\<close>

theorem healthURL_last_marker:
  "(\<not> sublist ''/api/'' dsn \<longrightarrow> healthURL dsn = [])
   \<and> (sublist ''/api/'' dsn \<longrightarrow>
        (\<exists>p q. dsn = p @ ''/api/'' @ q
           \<and> (\<forall>p' q'. dsn = p' @ ''/api/'' @ q' \<longrightarrow> length p' \<le> length p)
           \<and> healthURL dsn = p @ ''/_health''))"
proof (cases "LastIndex dsn ''/api/'' = - 1")
  case True
  have "\<not> sublist ''/api/'' dsn"
  proof
    assume "sublist ''/api/'' dsn"
    then obtain p q where "dsn = p @ ''/api/'' @ q" by (auto simp: sublist_def)
    then have "occurs_at ''/api/'' dsn (length p)"
      using decomp_occurs [of "''/api/''" p q] by simp
    with LastIndex_absent [OF True] show False by blast
  qed
  with True show ?thesis by (simp add: healthURL_def)
next
  case False
  from LastIndex_present [OF False] obtain i where i: "LastIndex dsn ''/api/'' = int i"
    "occurs_at ''/api/'' dsn i" "\<forall>j. occurs_at ''/api/'' dsn j \<longrightarrow> j \<le> i"
    by auto
  define p where "p = take i dsn"
  define q where "q = drop (i + length ''/api/'') dsn"
  have dec: "dsn = p @ ''/api/'' @ q"
    unfolding p_def q_def by (rule occurs_decomp [OF i(2)])
  have lp: "length p = i"
    using i(2) by (simp add: p_def occurs_at_def)
  have mx: "\<forall>p' q'. dsn = p' @ ''/api/'' @ q' \<longrightarrow> length p' \<le> length p"
  proof (intro allI impI)
    fix p' q' assume "dsn = p' @ ''/api/'' @ q'"
    then have "occurs_at ''/api/'' dsn (length p')"
      using decomp_occurs [of "''/api/''" p' q'] by simp
    with i(3) lp show "length p' \<le> length p" by simp
  qed
  have url: "healthURL dsn = p @ ''/_health''"
    using False i(1) by (simp add: healthURL_def p_def)
  have "sublist ''/api/'' dsn"
    using dec unfolding sublist_def by blast
  with dec mx url show ?thesis by blast
qed

theorem healthURL_last_marker_witness:
  "sublist ''/api/'' ''http://h/api/1/api/2''
   \<and> (\<exists>p q. ''http://h/api/1/api/2'' = p @ ''/api/'' @ q
         \<and> (\<forall>p' q'. ''http://h/api/1/api/2'' = p' @ ''/api/'' @ q' \<longrightarrow> length p' \<le> length p)
         \<and> healthURL ''http://h/api/1/api/2'' = p @ ''/_health'')
   \<and> healthURL ''http://h/api/1/api/2'' = ''http://h/api/1/_health''
   \<and> \<not> sublist ''/api/'' ''http://h/api''
   \<and> healthURL ''http://h/api'' = []"
proof -
  have a: "sublist ''/api/'' ''http://h/api/1/api/2''"
    by (simp add: sublist_Cons_right)
  have b: "\<not> sublist ''/api/'' ''http://h/api''"
    by (simp add: sublist_Cons_right)
  have c: "healthURL ''http://h/api/1/api/2'' = ''http://h/api/1/_health''"
    by (simp add: healthURL_def LastIndex_def)
  from healthURL_last_marker [of "''http://h/api/1/api/2''"]
    healthURL_last_marker [of "''http://h/api''"] a b c
  show ?thesis by blast
qed

section \<open>The sentry ping check\<close>




lemma pingSentry_nil:
  assumes "Get client (healthURL dsn) = (None, None)"
  shows "pingSentry dsn client = (Inl NilDereference, [HTTPGet (healthURL dsn)])"
  using assms by (simp add: pingSentry_def Let_def)




lemma sentryPingCheck_disabled:
  assumes "\<not> enabled m"
  shows "sentryPingCheck m since =
     (Inr \<lparr>SentryReport.Name = ''ping'', SentryReport.Duration = 0,
           SentryReport.Status = Deactivated, SentryReport.Error = None\<rparr>, [])"
  using assms by (simp add: sentryPingCheck_def)

text \<open>
  Claim C3. A sentry module constructed with \<open>enabled = false\<close>, and any module that is
  not enabled, returns from \<open>HealthChecks\<close> the one report of the ping check with the
  status Deactivated, the zero duration and the nil error, and does nothing to the outside
  world: the events are empty, so \<open>Get\<close> is not called. The result mentions neither the
  HTTP client nor the sentry client, nor the measured time.
\<close>

theorem HealthChecks_disabled:
  "HealthChecks (NewSentryModule s h False) since ctx =
     (Inr [\<lparr>SentryReport.Name = ''ping'', SentryReport.Duration = 0,
            SentryReport.Status = Deactivated, SentryReport.Error = None\<rparr>], [])
   \<and> (\<not> enabled m \<longrightarrow>
        (\<exists>reports. HealthChecks m since ctx = (Inr reports, [])
           \<and> reports \<noteq> []
           \<and> (\<forall>r \<in> set reports. SentryReport.Status r = Deactivated
                  \<and> SentryReport.Duration r = 0 \<and> SentryReport.Error r = None)))"
  by (simp add: HealthChecks_def sentryPingCheck_disabled NewSentryModule_def)

theorem HealthChecks_disabled_witness:
  "\<not> enabled (NewSentryModule example_sentry unavailable_client False)
   \<and> HealthChecks (NewSentryModule example_sentry unavailable_client False) 7 ()
       = (Inr [\<lparr>SentryReport.Name = ''ping'', SentryReport.Duration = 0,
                SentryReport.Status = Deactivated, SentryReport.Error = None\<rparr>], [])
   \<and> (\<exists>reports. HealthChecks (NewSentryModule example_sentry unavailable_client False) 7 ()
         = (Inr reports, [])
         \<and> reports \<noteq> []
         \<and> (\<forall>r \<in> set reports. SentryReport.Status r = Deactivated
                \<and> SentryReport.Duration r = 0 \<and> SentryReport.Error r = None))"
proof -
  have h: "\<not> enabled (NewSentryModule example_sentry unavailable_client False)"
    by (simp add: NewSentryModule_def)
  from HealthChecks_disabled
    [of example_sentry unavailable_client 7 "()"
      "NewSentryModule example_sentry unavailable_client False"] h
  show ?thesis by blast
qed




section \<open>The release of the response body\<close>




section \<open>The health component\<close>

lemma reports_loop_projects:
  "\<exists>ds. reports_loop Duration_String out rs = Inr (out @ ds)
        \<and> list_all2 (is_display_of Duration_String) rs ds"
proof (induction rs arbitrary: out)
  case Nil
  show ?case by simp
next
  case (Cons r rs)
  obtain n where n: "Status_String (SentryReport.Status r) = Inr n"
    using Status_String_returns by blast
  define d where "d = \<lparr>Report.Name = SentryReport.Name r,
    Report.Duration = Duration_String (SentryReport.Duration r),
    Report.Status = n, Report.Error = err (SentryReport.Error r)\<rparr>"
  have step: "reports_loop Duration_String out (r # rs)
                = reports_loop Duration_String (out @ [d]) rs"
    by (simp add: n and_then_Inr d_def)
  have d: "is_display_of Duration_String r d"
    by (simp add: is_display_of_def d_def n err_def)
  from Cons.IH [of "out @ [d]"] obtain ds
    where ds: "reports_loop Duration_String (out @ [d]) rs = Inr ((out @ [d]) @ ds)"
      "list_all2 (is_display_of Duration_String) rs ds"
    by blast
  have "reports_loop Duration_String out (r # rs) = Inr (out @ (d # ds))"
    using step ds(1) by simp
  moreover have "list_all2 (is_display_of Duration_String) (r # rs) (d # ds)"
    using d ds(2) by simp
  ultimately show ?case by blast
qed

lemma reports_loop_display:
  "\<exists>out. reports_loop Duration_String [] rs = Inr out
      \<and> length out = length rs
      \<and> (\<forall>i < length rs. is_display_of Duration_String (rs ! i) (out ! i))"
proof -
  obtain ds where "reports_loop Duration_String [] rs = Inr ([] @ ds)"
    and "list_all2 (is_display_of Duration_String) rs ds"
    using reports_loop_projects [of Duration_String "[]" rs] by blast
  then show ?thesis
    by (auto simp: list_all2_conv_all_nth)
qed

lemma kind_status_returns: "\<exists>s. kind_status Duration_String rs = Inr s"
proof -
  obtain ds where "reports_loop Duration_String [] rs = Inr ([] @ ds)"
    using reports_loop_projects [of Duration_String "[]" rs] by blast
  then show ?thesis
    using determineStatus_returns [of ds] by (simp add: kind_status_def and_then_Inr)
qed

lemma AllHealthChecks_kinds:
  "AllHealthChecks Duration_String c ctx =
     and_then (kind_status Duration_String (influx c ctx)) (\<lambda>si.
     and_then (kind_status Duration_String (jaeger c ctx)) (\<lambda>sj.
     and_then (kind_status Duration_String (redis c ctx)) (\<lambda>sr.
     and_then (kind_status Duration_String (Component.sentry c ctx)) (\<lambda>ss.
       Inr [''influx'' \<mapsto> si, ''jaeger'' \<mapsto> sj, ''redis'' \<mapsto> sr, ''sentry'' \<mapsto> ss]))))"
  by (simp add: AllHealthChecks_def kind_status_def InfluxHealthChecks_def JaegerHealthChecks_def
      RedisHealthChecks_def SentryHealthChecks_def and_then_assoc Let_def)

lemma AllHealthChecks_map:
  assumes "kind_status Duration_String (influx c ctx) = Inr si"
    and "kind_status Duration_String (jaeger c ctx) = Inr sj"
    and "kind_status Duration_String (redis c ctx) = Inr sr"
    and "kind_status Duration_String (Component.sentry c ctx) = Inr ss"
  shows "AllHealthChecks Duration_String c ctx =
     Inr [''influx'' \<mapsto> si, ''jaeger'' \<mapsto> sj, ''redis'' \<mapsto> sr, ''sentry'' \<mapsto> ss]"
  unfolding AllHealthChecks_kinds assms and_then_Inr ..

lemma dom_four:
  "dom [''influx'' \<mapsto> si, ''jaeger'' \<mapsto> sj, ''redis'' \<mapsto> sr, ''sentry'' \<mapsto> ss]
     = {''influx'', ''jaeger'', ''redis'', ''sentry''}"
  by (simp add: insert_commute)

text \<open>
  Claim C6. Each of the four \<open>HealthChecks\<close> methods of the component returns, without a
  panic, a list of display reports as long as the list of reports of its checker, and
  each display report is the projection of the report at the same index: the same name,
  the duration rendered, the status rendered by \<open>Status.String\<close>, and the error's message
  or the empty string when the error is nil.
\<close>

theorem HealthChecks_projection:
  "(\<exists>out. InfluxHealthChecks Duration_String c ctx = Inr out
      \<and> length out = length (influx c ctx)
      \<and> (\<forall>i < length (influx c ctx). is_display_of Duration_String (influx c ctx ! i) (out ! i)))
   \<and> (\<exists>out. JaegerHealthChecks Duration_String c ctx = Inr out
      \<and> length out = length (jaeger c ctx)
      \<and> (\<forall>i < length (jaeger c ctx). is_display_of Duration_String (jaeger c ctx ! i) (out ! i)))
   \<and> (\<exists>out. RedisHealthChecks Duration_String c ctx = Inr out
      \<and> length out = length (redis c ctx)
      \<and> (\<forall>i < length (redis c ctx). is_display_of Duration_String (redis c ctx ! i) (out ! i)))
   \<and> (\<exists>out. SentryHealthChecks Duration_String c ctx = Inr out
      \<and> length out = length (Component.sentry c ctx)
      \<and> (\<forall>i < length (Component.sentry c ctx).
            is_display_of Duration_String (Component.sentry c ctx ! i) (out ! i)))"
  unfolding InfluxHealthChecks_def JaegerHealthChecks_def RedisHealthChecks_def
    SentryHealthChecks_def Let_def
  by (intro conjI reports_loop_display)

theorem HealthChecks_projection_witness:
  "SentryHealthChecks example_Duration_String sentry_ko () =
     Inr [\<lparr>Report.Name = ''ping'', Report.Duration = ''2ms'', Report.Status = ''KO'',
           Report.Error = ''could not ping sentry: connection refused''\<rparr>]
   \<and> (0::nat) < length (Component.sentry sentry_ko ())
   \<and> is_display_of example_Duration_String (Component.sentry sentry_ko () ! 0)
       \<lparr>Report.Name = ''ping'', Report.Duration = ''2ms'', Report.Status = ''KO'',
        Report.Error = ''could not ping sentry: connection refused''\<rparr>
   \<and> InfluxHealthChecks example_Duration_String sentry_ko () =
       Inr [\<lparr>Report.Name = ''ping'', Report.Duration = ''1.5ms'', Report.Status = ''OK'',
             Report.Error = []\<rparr>]"
proof -
  have v: "SentryHealthChecks example_Duration_String sentry_ko () =
     Inr [\<lparr>Report.Name = ''ping'', Report.Duration = ''2ms'', Report.Status = ''KO'',
           Report.Error = ''could not ping sentry: connection refused''\<rparr>]"
    by (simp add: SentryHealthChecks_def sentry_ko_def NewComponent_def ko_report_def
        Status_String_consts and_then_Inr example_Duration_String_def err_def)
  have w: "InfluxHealthChecks example_Duration_String sentry_ko () =
       Inr [\<lparr>Report.Name = ''ping'', Report.Duration = ''1.5ms'', Report.Status = ''OK'',
             Report.Error = []\<rparr>]"
    by (simp add: InfluxHealthChecks_def sentry_ko_def NewComponent_def ok_report_def
        Status_String_consts and_then_Inr example_Duration_String_def err_def)
  have l: "(0::nat) < length (Component.sentry sentry_ko ())"
    by (simp add: sentry_ko_def NewComponent_def)
  from HealthChecks_projection [of example_Duration_String sentry_ko "()"]
  obtain out where o: "SentryHealthChecks example_Duration_String sentry_ko () = Inr out"
    "\<forall>i < length (Component.sentry sentry_ko ()).
        is_display_of example_Duration_String (Component.sentry sentry_ko () ! i) (out ! i)"
    by blast
  from o(2) l have "is_display_of example_Duration_String (Component.sentry sentry_ko () ! 0) (out ! 0)"
    by blast
  moreover from o(1) v have "out ! 0 = \<lparr>Report.Name = ''ping'', Report.Duration = ''2ms'',
      Report.Status = ''KO'', Report.Error = ''could not ping sentry: connection refused''\<rparr>"
    by auto
  ultimately show ?thesis using v w l by simp
qed

text \<open>
  Claim C5. \<open>AllHealthChecks\<close> returns, without a panic, a map whose keys are exactly
  "influx", "jaeger", "redis" and "sentry". The entry of a kind is the overall status of
  the reports of that kind's checker alone: for two components, the entries of every kind
  whose checker produces the same reports in both are the same, whatever the checkers of
  the other kinds produce.
\<close>

theorem AllHealthChecks_independent:
  "\<exists>m m'. AllHealthChecks Duration_String c ctx = Inr m
      \<and> AllHealthChecks Duration_String c' ctx = Inr m'
      \<and> dom m = {''influx'', ''jaeger'', ''redis'', ''sentry''}
      \<and> dom m' = {''influx'', ''jaeger'', ''redis'', ''sentry''}
      \<and> map_option Inr (m ''influx'') = Some (kind_status Duration_String (influx c ctx))
      \<and> map_option Inr (m ''jaeger'') = Some (kind_status Duration_String (jaeger c ctx))
      \<and> map_option Inr (m ''redis'') = Some (kind_status Duration_String (redis c ctx))
      \<and> map_option Inr (m ''sentry'')
          = Some (kind_status Duration_String (Component.sentry c ctx))
      \<and> (influx c ctx = influx c' ctx \<longrightarrow> m ''influx'' = m' ''influx'')
      \<and> (jaeger c ctx = jaeger c' ctx \<longrightarrow> m ''jaeger'' = m' ''jaeger'')
      \<and> (redis c ctx = redis c' ctx \<longrightarrow> m ''redis'' = m' ''redis'')
      \<and> (Component.sentry c ctx = Component.sentry c' ctx \<longrightarrow> m ''sentry'' = m' ''sentry'')"
proof -
  obtain si where si: "kind_status Duration_String (influx c ctx) = Inr si"
    using kind_status_returns by blast
  obtain sj where sj: "kind_status Duration_String (jaeger c ctx) = Inr sj"
    using kind_status_returns by blast
  obtain sr where sr: "kind_status Duration_String (redis c ctx) = Inr sr"
    using kind_status_returns by blast
  obtain ss where ss: "kind_status Duration_String (Component.sentry c ctx) = Inr ss"
    using kind_status_returns by blast
  obtain ti where ti: "kind_status Duration_String (influx c' ctx) = Inr ti"
    using kind_status_returns by blast
  obtain tj where tj: "kind_status Duration_String (jaeger c' ctx) = Inr tj"
    using kind_status_returns by blast
  obtain tr where tr: "kind_status Duration_String (redis c' ctx) = Inr tr"
    using kind_status_returns by blast
  obtain ts where ts: "kind_status Duration_String (Component.sentry c' ctx) = Inr ts"
    using kind_status_returns by blast
  let ?m = "[''influx'' \<mapsto> si, ''jaeger'' \<mapsto> sj, ''redis'' \<mapsto> sr, ''sentry'' \<mapsto> ss]"
  let ?m' = "[''influx'' \<mapsto> ti, ''jaeger'' \<mapsto> tj, ''redis'' \<mapsto> tr, ''sentry'' \<mapsto> ts]"
  have m: "AllHealthChecks Duration_String c ctx = Inr ?m"
    by (rule AllHealthChecks_map [OF si sj sr ss])
  have m': "AllHealthChecks Duration_String c' ctx = Inr ?m'"
    by (rule AllHealthChecks_map [OF ti tj tr ts])
  have i: "influx c ctx = influx c' ctx \<longrightarrow> ?m ''influx'' = ?m' ''influx''"
    using si ti by auto
  have j: "jaeger c ctx = jaeger c' ctx \<longrightarrow> ?m ''jaeger'' = ?m' ''jaeger''"
    using sj tj by auto
  have r: "redis c ctx = redis c' ctx \<longrightarrow> ?m ''redis'' = ?m' ''redis''"
    using sr tr by auto
  have s: "Component.sentry c ctx = Component.sentry c' ctx \<longrightarrow> ?m ''sentry'' = ?m' ''sentry''"
    using ss ts by auto
  have e: "map_option Inr (?m ''influx'') = Some (kind_status Duration_String (influx c ctx))"
    "map_option Inr (?m ''jaeger'') = Some (kind_status Duration_String (jaeger c ctx))"
    "map_option Inr (?m ''redis'') = Some (kind_status Duration_String (redis c ctx))"
    "map_option Inr (?m ''sentry'') = Some (kind_status Duration_String (Component.sentry c ctx))"
    by (simp_all add: si sj sr ss)
  show ?thesis
    unfolding m m'
    by (intro exI [of _ ?m] exI [of _ ?m'] conjI refl dom_four i j r s e)
qed

theorem AllHealthChecks_independent_witness:
  "influx all_ok () = influx sentry_ko () \<and> jaeger all_ok () = jaeger sentry_ko ()
   \<and> redis all_ok () = redis sentry_ko ()
   \<and> Component.sentry all_ok () \<noteq> Component.sentry sentry_ko ()
   \<and> AllHealthChecks example_Duration_String all_ok () =
       Inr [''influx'' \<mapsto> ''OK'', ''jaeger'' \<mapsto> ''OK'', ''redis'' \<mapsto> ''OK'', ''sentry'' \<mapsto> ''OK'']
   \<and> AllHealthChecks example_Duration_String sentry_ko () =
       Inr [''influx'' \<mapsto> ''OK'', ''jaeger'' \<mapsto> ''OK'', ''redis'' \<mapsto> ''OK'', ''sentry'' \<mapsto> ''KO'']
   \<and> (\<exists>m m'. AllHealthChecks example_Duration_String all_ok () = Inr m
         \<and> AllHealthChecks example_Duration_String sentry_ko () = Inr m'
         \<and> m ''influx'' = m' ''influx'' \<and> m ''jaeger'' = m' ''jaeger''
         \<and> m ''redis'' = m' ''redis'')"
proof -
  have a: "influx all_ok () = influx sentry_ko ()"
    and b: "jaeger all_ok () = jaeger sentry_ko ()"
    and c: "redis all_ok () = redis sentry_ko ()"
    by (simp_all add: all_ok_def sentry_ko_def NewComponent_def)
  have d: "Component.sentry all_ok () \<noteq> Component.sentry sentry_ko ()"
    by (simp add: all_ok_def sentry_ko_def NewComponent_def ok_report_def ko_report_def)
  have v: "AllHealthChecks example_Duration_String all_ok () =
       Inr [''influx'' \<mapsto> ''OK'', ''jaeger'' \<mapsto> ''OK'', ''redis'' \<mapsto> ''OK'', ''sentry'' \<mapsto> ''OK'']"
    by (simp add: AllHealthChecks_def InfluxHealthChecks_def JaegerHealthChecks_def
        RedisHealthChecks_def SentryHealthChecks_def all_ok_def NewComponent_def
        ok_report_def Status_String_consts and_then_Inr
        determineStatus_def determineStatus_loop_Cons determineStatus_loop_Nil)
  have w: "AllHealthChecks example_Duration_String sentry_ko () =
       Inr [''influx'' \<mapsto> ''OK'', ''jaeger'' \<mapsto> ''OK'', ''redis'' \<mapsto> ''OK'', ''sentry'' \<mapsto> ''KO'']"
    by (simp add: AllHealthChecks_def InfluxHealthChecks_def JaegerHealthChecks_def
        RedisHealthChecks_def SentryHealthChecks_def sentry_ko_def NewComponent_def
        ok_report_def ko_report_def Status_String_consts and_then_Inr
        determineStatus_def determineStatus_loop_Cons determineStatus_loop_Nil)
  from AllHealthChecks_independent [of example_Duration_String all_ok "()" sentry_ko]
  obtain m m' where m: "AllHealthChecks example_Duration_String all_ok () = Inr m"
    and m': "AllHealthChecks example_Duration_String sentry_ko () = Inr m'"
    and i: "influx all_ok () = influx sentry_ko () \<longrightarrow> m ''influx'' = m' ''influx''"
    and j: "jaeger all_ok () = jaeger sentry_ko () \<longrightarrow> m ''jaeger'' = m' ''jaeger''"
    and r: "redis all_ok () = redis sentry_ko () \<longrightarrow> m ''redis'' = m' ''redis''"
    by (elim exE conjE) (rule that)
  from i a have ei: "m ''influx'' = m' ''influx''" by (rule mp)
  from j b have ej: "m ''jaeger'' = m' ''jaeger''" by (rule mp)
  from r c have er: "m ''redis'' = m' ''redis''" by (rule mp)
  have h: "\<exists>m m'. AllHealthChecks example_Duration_String all_ok () = Inr m
         \<and> AllHealthChecks example_Duration_String sentry_ko () = Inr m'
         \<and> m ''influx'' = m' ''influx'' \<and> m ''jaeger'' = m' ''jaeger''
         \<and> m ''redis'' = m' ''redis''"
    by (intro exI conjI) (rule m m' ei ej er)+
  show ?thesis by (intro conjI a b c d v w h)
qed

end
